theory Spec2Isabelle
  imports Main
begin

section \<open>Python values\<close>

text \<open>
  A Python \<open>str\<close> is a sequence of Unicode code points, lone surrogates included; it is
  modelled as the list of their numbers. A \<open>bytes\<close> object is the list of its bytes'
  values, each below 256.
\<close>

type_synonym pystr = "nat list"
type_synonym bytes = "nat list"

definition str_of :: "string \<Rightarrow> pystr" where
  "str_of s = map of_char s"

text \<open>
  The Python objects that flow through the client: the values a backend response or a
  metadata argument is built from. Floats are left out. Dictionaries have \<open>str\<close> keys and
  keep their insertion order.
\<close>

datatype pyval =
    PNone
  | PBool bool
  | PInt int
  | PStr pystr
  | PBytes bytes
  | PList "pyval list"
  | PTuple "pyval list"
  | PDict "(pystr \<times> pyval) list"

text \<open>The exceptions (all of them subclasses of \<open>Exception\<close>) that the model raises.\<close>

datatype exn =
    KeyError pystr
  | TypeError
  | AttributeError
  | UnicodeEncodeError
  | UnicodeDecodeError
  | JSONDecodeError
  | FileNotFoundError pystr
  | ClientError pystr
  | ConnectionError
  | OtherError pystr

text \<open>\<open>obj[key]\<close> with a \<open>str\<close> key: only a dictionary that holds the key answers.\<close>

fun getitem :: "pyval \<Rightarrow> pystr \<Rightarrow> exn + pyval" where
  "getitem (PDict kvs) k = (case map_of kvs k of None \<Rightarrow> Inl (KeyError k) | Some v \<Rightarrow> Inr v)"
| "getitem _ k = Inl TypeError"

section \<open>The HTTP response object\<close>

text \<open>
  What the client reads of a \<open>requests.Response\<close>: three attributes and the outcome
  of its \<open>json()\<close> method. The record field for the attribute \<open>text\<close> is \<open>text_str\<close>, the
  one for \<open>json()\<close> is \<open>json_result\<close>.
\<close>

record http_response =
  status_code :: int
  reason :: pystr
  text_str :: pystr
  json_result :: "exn + pyval"

text \<open>\<open>Response.ok\<close>: false exactly for the status codes from 400 to 599.\<close>

definition ok :: "http_response \<Rightarrow> bool" where
  "ok r = (\<not> (400 \<le> status_code r \<and> status_code r < 600))"

datatype response = Obj pyval | Response http_response

section \<open>Error normalisation\<close>

definition http_status :: "pyval \<Rightarrow> exn + pyval" where
  \<comment> \<open>\<open>response['ResponseMetadata']['HTTPStatusCode']\<close>\<close>
  "http_status response =
     (case getitem response (str_of ''ResponseMetadata'') of
        Inl e \<Rightarrow> Inl e
      | Inr md \<Rightarrow> getitem md (str_of ''HTTPStatusCode''))"

fun handle_error :: "response \<Rightarrow> exn + pyval" where
  "handle_error (Obj (PDict kvs)) =
     (case http_status (PDict kvs) of
        Inl e \<Rightarrow> Inl e
      | Inr code \<Rightarrow>
          Inr (PDict [(str_of ''status'', code), (str_of ''reason'', code),
                      (str_of ''text'', PDict kvs)]))"
| "handle_error (Obj _) = Inl AttributeError"
| "handle_error (Response r) =
     Inr (PDict [(str_of ''status'', PInt (status_code r)),
                 (str_of ''reason'', PStr (reason r)),
                 (str_of ''text'', PStr (text_str r))])"

section \<open>Text encodings of the Python runtime\<close>

text \<open>
  \<open>str.encode('utf-8')\<close> and \<open>bytes(s, 'utf-8')\<close>: a surrogate code point has no UTF-8
  form and raises \<open>UnicodeEncodeError\<close>. Numbers from \<open>0x110000\<close> are not code points; no
  Python string holds one.
\<close>

definition utf8_encode_cp :: "nat \<Rightarrow> exn + bytes" where
  "utf8_encode_cp cp =
     (if cp < 0x80 then Inr [cp]
      else if cp < 0x800 then Inr [0xC0 + cp div 64, 0x80 + cp mod 64]
      else if 0xD800 \<le> cp \<and> cp \<le> 0xDFFF then Inl UnicodeEncodeError
      else if cp < 0x10000 then
        Inr [0xE0 + cp div 4096, 0x80 + cp div 64 mod 64, 0x80 + cp mod 64]
      else if cp < 0x110000 then
        Inr [0xF0 + cp div 262144, 0x80 + cp div 4096 mod 64,
             0x80 + cp div 64 mod 64, 0x80 + cp mod 64]
      else Inl UnicodeEncodeError)"

fun utf8_encode :: "pystr \<Rightarrow> exn + bytes" where
  "utf8_encode [] = Inr []"
| "utf8_encode (cp # s) =
     (case utf8_encode_cp cp of
        Inl e \<Rightarrow> Inl e
      | Inr bs \<Rightarrow> (case utf8_encode s of Inl e \<Rightarrow> Inl e | Inr rest \<Rightarrow> Inr (bs @ rest)))"

definition cont :: "nat \<Rightarrow> bool" where
  \<comment> \<open>a continuation byte, \<open>10xxxxxx\<close>\<close>
  "cont c = (0x80 \<le> c \<and> c < 0xC0)"

definition low6 :: "nat \<Rightarrow> nat" where
  "low6 c = c mod 64"

text \<open>\<open>bytes.decode('utf-8')\<close>, strict: overlong forms, surrogates and truncated
  sequences raise \<open>UnicodeDecodeError\<close>.\<close>

fun utf8_decode :: "bytes \<Rightarrow> exn + pystr" where
  "utf8_decode [] = Inr []"
| "utf8_decode (b # bs) =
     (let n = b in
      if n < 0x80 then
        (case utf8_decode bs of Inl e \<Rightarrow> Inl e | Inr s \<Rightarrow> Inr (n # s))
      else if 0xC2 \<le> n \<and> n < 0xE0 then
        (case bs of
           c1 # rest \<Rightarrow>
             if cont c1 then
               (case utf8_decode rest of
                  Inl e \<Rightarrow> Inl e
                | Inr s \<Rightarrow> Inr (((n - 0xC0) * 64 + low6 c1) # s))
             else Inl UnicodeDecodeError
         | _ \<Rightarrow> Inl UnicodeDecodeError)
      else if 0xE0 \<le> n \<and> n < 0xF0 then
        (case bs of
           c1 # c2 # rest \<Rightarrow>
             if cont c1 \<and> cont c2
                \<and> (if n = 0xE0 then 0xA0 \<le> c1 else True)
                \<and> (if n = 0xED then c1 < 0xA0 else True) then
               (case utf8_decode rest of
                  Inl e \<Rightarrow> Inl e
                | Inr s \<Rightarrow> Inr (((n - 0xE0) * 4096 + low6 c1 * 64 + low6 c2) # s))
             else Inl UnicodeDecodeError
         | _ \<Rightarrow> Inl UnicodeDecodeError)
      else if 0xF0 \<le> n \<and> n < 0xF5 then
        (case bs of
           c1 # c2 # c3 # rest \<Rightarrow>
             if cont c1 \<and> cont c2 \<and> cont c3
                \<and> (if n = 0xF0 then 0x90 \<le> c1 else True)
                \<and> (if n = 0xF4 then c1 < 0x90 else True) then
               (case utf8_decode rest of
                  Inl e \<Rightarrow> Inl e
                | Inr s \<Rightarrow>
                    Inr (((n - 0xF0) * 262144 + low6 c1 * 4096 + low6 c2 * 64 + low6 c3) # s))
             else Inl UnicodeDecodeError
         | _ \<Rightarrow> Inl UnicodeDecodeError)
      else Inl UnicodeDecodeError)"

text \<open>\<open>base64.b64encode\<close>: the standard alphabet, padded with \<open>=\<close>.\<close>

definition b64_alphabet :: bytes where
  "b64_alphabet =
     str_of ''ABCDEFGHIJKLMNOPQRSTUVWXYZabcdefghijklmnopqrstuvwxyz0123456789+/''"

definition b64_char :: "nat \<Rightarrow> nat" where
  "b64_char i = b64_alphabet ! (i mod 64)"

fun b64encode :: "bytes \<Rightarrow> bytes" where
  "b64encode (a # b # c # rest) =
     (let n = a * 65536 + b * 256 + c in
      [b64_char (n div 262144), b64_char (n div 4096), b64_char (n div 64), b64_char n]
      @ b64encode rest)"
| "b64encode [a, b] =
     (let n = a * 65536 + b * 256 in
      [b64_char (n div 262144), b64_char (n div 4096), b64_char (n div 64), 61])"
| "b64encode [a] =
     (let n = a * 65536 in
      [b64_char (n div 262144), b64_char (n div 4096), 61, 61])"
| "b64encode [] = []"

section \<open>JSON serialisation of the Python runtime\<close>

text \<open>
  \<open>json.dumps(data, indent=4)\<close> with its other defaults: \<open>ensure_ascii\<close> on, item
  separator \<open>,\<close> and key separator \<open>: \<close>. The output is a \<open>str\<close> of printable ASCII
  and newlines. A \<open>bytes\<close> object is not serialisable and raises \<open>TypeError\<close>. The limits
  of the interpreter (recursion depth, the digits of an integer conversion, memory) are
  not modelled, here and in \<open>json.loads\<close> below.
\<close>

function nat_repr :: "nat \<Rightarrow> pystr" where
  "nat_repr n = (if n < 10 then [48 + n] else nat_repr (n div 10) @ [48 + n mod 10])"
  by pat_completeness auto
termination
  by (relation "measure id") auto

declare nat_repr.simps [simp del]

definition int_repr :: "int \<Rightarrow> pystr" where
  "int_repr i = (if i < 0 then 45 # nat_repr (nat (- i)) else nat_repr (nat i))"

definition hex_digit :: "nat \<Rightarrow> nat" where
  "hex_digit d = (if d < 10 then 48 + d else 87 + d)"

definition hex4 :: "nat \<Rightarrow> pystr" where
  "hex4 n = [hex_digit (n div 4096 mod 16), hex_digit (n div 256 mod 16),
             hex_digit (n div 16 mod 16), hex_digit (n mod 16)]"

definition escape_cp :: "nat \<Rightarrow> pystr" where
  "escape_cp cp =
     (if cp = 0x5C then [0x5C, 0x5C]
      else if cp = 0x22 then [0x5C, 0x22]
      else if cp = 0x08 then [0x5C, 0x62]
      else if cp = 0x0C then [0x5C, 0x66]
      else if cp = 0x0A then [0x5C, 0x6E]
      else if cp = 0x0D then [0x5C, 0x72]
      else if cp = 0x09 then [0x5C, 0x74]
      else if 0x20 \<le> cp \<and> cp \<le> 0x7E then [cp]
      else if cp < 0x10000 then [0x5C, 0x75] @ hex4 cp
      else
        (let n = cp - 0x10000 in
         [0x5C, 0x75] @ hex4 (0xD800 + n div 1024 mod 1024)
         @ [0x5C, 0x75] @ hex4 (0xDC00 + n mod 1024)))"

definition encode_basestring_ascii :: "pystr \<Rightarrow> pystr" where
  "encode_basestring_ascii s = [0x22] @ concat (map escape_cp s) @ [0x22]"

definition newline_indent :: "nat \<Rightarrow> pystr" where
  "newline_indent level = 0x0A # replicate (4 * level) 0x20"

fun iterencode :: "nat \<Rightarrow> pyval \<Rightarrow> exn + pystr"
  and iterencode_list :: "nat \<Rightarrow> pyval list \<Rightarrow> exn + pystr"
  and iterencode_dict :: "nat \<Rightarrow> (pystr \<times> pyval) list \<Rightarrow> exn + pystr"
where
  "iterencode level PNone = Inr (str_of ''null'')"
| "iterencode level (PBool b) = Inr (if b then str_of ''true'' else str_of ''false'')"
| "iterencode level (PInt i) = Inr (int_repr i)"
| "iterencode level (PStr s) = Inr (encode_basestring_ascii s)"
| "iterencode level (PBytes b) = Inl TypeError"
| "iterencode level (PList xs) =
     (if xs = [] then Inr (str_of ''[]'')
      else case iterencode_list (Suc level) xs of
             Inl e \<Rightarrow> Inl e
           | Inr items \<Rightarrow>
               Inr (str_of ''['' @ newline_indent (Suc level) @ items
                    @ newline_indent level @ str_of '']''))"
| "iterencode level (PTuple xs) =
     (if xs = [] then Inr (str_of ''[]'')
      else case iterencode_list (Suc level) xs of
             Inl e \<Rightarrow> Inl e
           | Inr items \<Rightarrow>
               Inr (str_of ''['' @ newline_indent (Suc level) @ items
                    @ newline_indent level @ str_of '']''))"
| "iterencode level (PDict kvs) =
     (if kvs = [] then Inr (str_of ''{}'')
      else case iterencode_dict (Suc level) kvs of
             Inl e \<Rightarrow> Inl e
           | Inr items \<Rightarrow>
               Inr (str_of ''{'' @ newline_indent (Suc level) @ items
                    @ newline_indent level @ str_of ''}''))"
| "iterencode_list level [] = Inr []"
| "iterencode_list level (x # xs) =
     (case iterencode level x of
        Inl e \<Rightarrow> Inl e
      | Inr item \<Rightarrow>
          if xs = [] then Inr item
          else case iterencode_list level xs of
                 Inl e \<Rightarrow> Inl e
               | Inr items \<Rightarrow> Inr (item @ str_of '','' @ newline_indent level @ items))"
| "iterencode_dict level [] = Inr []"
| "iterencode_dict level ((k, v) # kvs) =
     (case iterencode level v of
        Inl e \<Rightarrow> Inl e
      | Inr item \<Rightarrow>
          if kvs = [] then Inr (encode_basestring_ascii k @ str_of '': '' @ item)
          else case iterencode_dict level kvs of
                 Inl e \<Rightarrow> Inl e
               | Inr items \<Rightarrow>
                   Inr (encode_basestring_ascii k @ str_of '': '' @ item
                        @ str_of '','' @ newline_indent level @ items))"

definition json_dumps :: "pyval \<Rightarrow> exn + pystr" where
  "json_dumps data = iterencode 0 data"

section \<open>JSON deserialisation of the Python runtime\<close>

text \<open>
  \<open>json.loads\<close> with its defaults, after the decoder and scanner of the standard library
  (\<open>scan_once\<close>, \<open>JSONArray\<close>, \<open>JSONObject\<close>, \<open>scanstring\<close>, the number pattern). The
  functions here work on the rest of the input, where the library moves an index along
  the string. Whitespace is space, tab, line feed and carriage return.
\<close>

definition is_ws :: "nat \<Rightarrow> bool" where
  "is_ws c = (c = 0x20 \<or> c = 0x09 \<or> c = 0x0A \<or> c = 0x0D)"

definition skip_ws :: "pystr \<Rightarrow> pystr" where
  "skip_ws s = dropWhile is_ws s"

definition is_digit :: "nat \<Rightarrow> bool" where
  "is_digit c = (48 \<le> c \<and> c \<le> 57)"

definition parse_nat :: "pystr \<Rightarrow> nat" where
  "parse_nat ds = foldl (\<lambda>a d. 10 * a + (d - 48)) 0 ds"

text \<open>
  The number pattern \<open>(-?(?:0|[1-9][0-9]*))([.][0-9]+)?([eE][-+]?[0-9]+)?\<close> at the start of
  the input: an integer literal with its value and the rest, or a literal with a fraction
  or an exponent, which Python reads as a float, or no match.
\<close>

datatype number = IntLiteral int pystr | FloatLiteral | NoNumber

definition has_fraction :: "pystr \<Rightarrow> bool" where
  "has_fraction s = (case s of c # d # _ \<Rightarrow> c = 0x2E \<and> is_digit d | _ \<Rightarrow> False)"

definition has_exponent :: "pystr \<Rightarrow> bool" where
  "has_exponent s =
     (case s of
        c # d # t \<Rightarrow>
          (c = 0x65 \<or> c = 0x45)
          \<and> (is_digit d \<or> ((d = 0x2D \<or> d = 0x2B) \<and> (case t of e # _ \<Rightarrow> is_digit e | [] \<Rightarrow> False)))
      | _ \<Rightarrow> False)"

definition after_fraction :: "pystr \<Rightarrow> pystr" where
  "after_fraction s = (if has_fraction s then dropWhile is_digit (tl s) else s)"

definition unsigned_number :: "bool \<Rightarrow> pystr \<Rightarrow> number" where
  "unsigned_number negative s =
     (case s of
        [] \<Rightarrow> NoNumber
      | d # t \<Rightarrow>
          if is_digit d then
            (let ds = (if d = 48 then [d] else d # takeWhile is_digit t);
                 rest = (if d = 48 then t else dropWhile is_digit t)
             in if has_fraction rest \<or> has_exponent (after_fraction rest) then FloatLiteral
                else IntLiteral (if negative then - int (parse_nat ds) else int (parse_nat ds)) rest)
          else NoNumber)"

definition match_number :: "pystr \<Rightarrow> number" where
  "match_number s =
     (case s of
        [] \<Rightarrow> NoNumber
      | c # t \<Rightarrow> if c = 0x2D then unsigned_number True t else unsigned_number False s)"

text \<open>The four hexadecimal digits of a \<open>u\<close> escape, and the single-letter escapes.\<close>

definition is_hex :: "nat \<Rightarrow> bool" where
  "is_hex c = (is_digit c \<or> (0x61 \<le> c \<and> c \<le> 0x66) \<or> (0x41 \<le> c \<and> c \<le> 0x46))"

definition hex_value :: "nat \<Rightarrow> nat" where
  "hex_value c = (if is_digit c then c - 48 else if 0x61 \<le> c then c - 87 else c - 55)"

definition decode_uXXXX :: "pystr \<Rightarrow> nat option" where
  "decode_uXXXX s =
     (case s of
        a # b # c # d # _ \<Rightarrow>
          if is_hex a \<and> is_hex b \<and> is_hex c \<and> is_hex d then
            Some (hex_value a * 4096 + hex_value b * 256 + hex_value c * 16 + hex_value d)
          else None
      | _ \<Rightarrow> None)"

definition backslash :: "nat \<Rightarrow> nat option" where
  "backslash esc =
     (if esc = 0x22 then Some 0x22
      else if esc = 0x5C then Some 0x5C
      else if esc = 0x2F then Some 0x2F
      else if esc = 0x62 then Some 0x08
      else if esc = 0x66 then Some 0x0C
      else if esc = 0x6E then Some 0x0A
      else if esc = 0x72 then Some 0x0D
      else if esc = 0x74 then Some 0x09
      else None)"

text \<open>\<open>scanstring\<close>, strict, from just after the opening quote: the string and the rest of
  the input after the closing quote.\<close>

fun scanstring :: "pystr \<Rightarrow> (pystr \<times> pystr) option" where
  "scanstring [] = None"
| "scanstring (c # s) =
     (if c = 0x22 then Some ([], s)
      else if c = 0x5C then
        (case s of
           [] \<Rightarrow> None
         | esc # s1 \<Rightarrow>
             if esc \<noteq> 0x75 then
               (case backslash esc of
                  None \<Rightarrow> None
                | Some ch \<Rightarrow>
                    (case scanstring s1 of
                       None \<Rightarrow> None
                     | Some (str, rest) \<Rightarrow> Some (ch # str, rest)))
             else
               (case decode_uXXXX s1 of
                  None \<Rightarrow> None
                | Some uni \<Rightarrow>
                    if 0xD800 \<le> uni \<and> uni \<le> 0xDBFF \<and> take 2 (drop 4 s1) = [0x5C, 0x75] then
                      (case decode_uXXXX (drop 6 s1) of
                         None \<Rightarrow> None
                       | Some uni2 \<Rightarrow>
                           if 0xDC00 \<le> uni2 \<and> uni2 \<le> 0xDFFF then
                             (case scanstring (drop 10 s1) of
                                None \<Rightarrow> None
                              | Some (str, rest) \<Rightarrow>
                                  Some ((0x10000 + (uni - 0xD800) * 1024 + (uni2 - 0xDC00)) # str,
                                        rest))
                           else
                             (case scanstring (drop 4 s1) of
                                None \<Rightarrow> None
                              | Some (str, rest) \<Rightarrow> Some (uni # str, rest)))
                    else
                      (case scanstring (drop 4 s1) of
                         None \<Rightarrow> None
                       | Some (str, rest) \<Rightarrow> Some (uni # str, rest))))
      else if c < 0x20 then None
      else
        (case scanstring s of
           None \<Rightarrow> None
         | Some (str, rest) \<Rightarrow> Some (c # str, rest)))"

text \<open>\<open>dict(pairs)\<close>: a key that comes again keeps its place and takes the later value.\<close>

fun dict_setitem :: "(pystr \<times> pyval) list \<Rightarrow> pystr \<Rightarrow> pyval \<Rightarrow> (pystr \<times> pyval) list" where
  "dict_setitem [] k v = [(k, v)]"
| "dict_setitem ((k', v') # d) k v =
     (if k' = k then (k, v) # d else (k', v') # dict_setitem d k v)"

definition dict_of_pairs :: "(pystr \<times> pyval) list \<Rightarrow> (pystr \<times> pyval) list" where
  "dict_of_pairs pairs = foldl (\<lambda>d (k, v). dict_setitem d k v) [] pairs"

text \<open>
  The result of scanning: a value and the rest of the input; input that is not JSON (the
  library raises \<open>JSONDecodeError\<close>); a float, which the model does not hold; or the end
  of the fuel. \<open>scan_once\<close> reads one value, \<open>parse_array\<close> the items of an array after
  its bracket, \<open>parse_object\<close> the members of an object after the quote that opens the
  first key. The fuel bounds the depth of the calls.
\<close>

datatype parsed = Parsed pyval pystr | Invalid | FloatValue | OutOfFuel

fun scan_once :: "nat \<Rightarrow> pystr \<Rightarrow> parsed"
  and parse_array :: "nat \<Rightarrow> pystr \<Rightarrow> pyval list \<Rightarrow> parsed"
  and parse_object :: "nat \<Rightarrow> pystr \<Rightarrow> (pystr \<times> pyval) list \<Rightarrow> parsed"
where
  "scan_once 0 s = OutOfFuel"
| "scan_once (Suc n) [] = Invalid"
| "scan_once (Suc n) (c # s) =
     (if c = 0x22 then
        (case scanstring s of None \<Rightarrow> Invalid | Some (str, rest) \<Rightarrow> Parsed (PStr str) rest)
      else if c = 0x7B then
        (case skip_ws s of
           [] \<Rightarrow> Invalid
         | d # t1 \<Rightarrow>
             if d = 0x7D then Parsed (PDict []) t1
             else if d = 0x22 then parse_object n t1 []
             else Invalid)
      else if c = 0x5B then
        (case skip_ws s of
           [] \<Rightarrow> Invalid
         | d # t1 \<Rightarrow> if d = 0x5D then Parsed (PList []) t1 else parse_array n (d # t1) [])
      else if take 4 (c # s) = str_of ''null'' then Parsed PNone (drop 3 s)
      else if take 4 (c # s) = str_of ''true'' then Parsed (PBool True) (drop 3 s)
      else if take 5 (c # s) = str_of ''false'' then Parsed (PBool False) (drop 4 s)
      else
        (case match_number (c # s) of
           IntLiteral i rest \<Rightarrow> Parsed (PInt i) rest
         | FloatLiteral \<Rightarrow> FloatValue
         | NoNumber \<Rightarrow>
             if take 3 (c # s) = str_of ''NaN'' \<or> take 8 (c # s) = str_of ''Infinity''
                \<or> take 9 (c # s) = str_of ''-Infinity'' then FloatValue
             else Invalid))"
| "parse_array 0 s acc = OutOfFuel"
| "parse_array (Suc n) s acc =
     (case scan_once n s of
        Parsed v rest \<Rightarrow>
          (case skip_ws rest of
             [] \<Rightarrow> Invalid
           | d # t1 \<Rightarrow>
               if d = 0x5D then Parsed (PList (acc @ [v])) t1
               else if d = 0x2C then parse_array n (skip_ws t1) (acc @ [v])
               else Invalid)
      | Invalid \<Rightarrow> Invalid
      | FloatValue \<Rightarrow> FloatValue
      | OutOfFuel \<Rightarrow> OutOfFuel)"
| "parse_object 0 s acc = OutOfFuel"
| "parse_object (Suc n) s acc =
     (case scanstring s of
        None \<Rightarrow> Invalid
      | Some (key, rest) \<Rightarrow>
          (case skip_ws rest of
             [] \<Rightarrow> Invalid
           | colon # t1 \<Rightarrow>
               if colon \<noteq> 0x3A then Invalid
               else
                 (case scan_once n (skip_ws t1) of
                    Parsed v t2 \<Rightarrow>
                      (case skip_ws t2 of
                         [] \<Rightarrow> Invalid
                       | d # t3 \<Rightarrow>
                           if d = 0x7D then Parsed (PDict (dict_of_pairs (acc @ [(key, v)]))) t3
                           else if d = 0x2C then
                             (case skip_ws t3 of
                                [] \<Rightarrow> Invalid
                              | q # t4 \<Rightarrow>
                                  if q = 0x22 then parse_object n t4 (acc @ [(key, v)])
                                  else Invalid)
                           else Invalid)
                  | Invalid \<Rightarrow> Invalid
                  | FloatValue \<Rightarrow> FloatValue
                  | OutOfFuel \<Rightarrow> OutOfFuel)))"


section \<open>The client and its surroundings\<close>

definition API_ENDPOINT :: pystr where
  "API_ENDPOINT = str_of ''https://api.filebase.io/v1/''"

definition AWS_ENDPOINT :: pystr where
  "AWS_ENDPOINT = str_of ''https://s3.filebase.com''"

text \<open>The handle that \<open>boto3.client('s3', ...)\<close> returns, as far as its arguments fix it.\<close>

record s3_client =
  endpoint_url :: pystr
  aws_access_key_id :: pystr
  aws_secret_access_key :: pystr

record Filebase =
  filebase_api_key :: pystr
  filebase_secret_api_key :: pystr
  s3 :: s3_client

definition init :: "pystr \<Rightarrow> pystr \<Rightarrow> Filebase" where
  \<comment> \<open>\<open>Filebase.__init__\<close>\<close>
  "init api_key secret_api_key =
     \<lparr>filebase_api_key = api_key,
      filebase_secret_api_key = secret_api_key,
      s3 = \<lparr>endpoint_url = AWS_ENDPOINT,
            aws_access_key_id = api_key,
            aws_secret_access_key = secret_api_key\<rparr>\<rparr>"

text \<open>An open file, and what \<open>put_object\<close> takes as \<open>Body\<close>.\<close>

datatype pyfile = FileObject nat

datatype body = BodyFile pyfile | BodyBytes bytes

text \<open>
  Everything outside the client is a parameter: Unicode lower-casing (\<open>str.lower\<close>), the
  file system, the object store behind the S3 handle and the HTTP service. Each call
  into the outside world may change that world (of type \<open>'w\<close>) and either raises or
  answers.
\<close>

record 'w env =
  str_lower :: "pystr \<Rightarrow> pystr"
  open_rb :: "pystr \<Rightarrow> 'w \<Rightarrow> (exn + pyfile) \<times> 'w"
  s3_create_bucket :: "s3_client \<Rightarrow> pystr \<Rightarrow> 'w \<Rightarrow> (exn + pyval) \<times> 'w"
  s3_list_buckets :: "s3_client \<Rightarrow> 'w \<Rightarrow> (exn + pyval) \<times> 'w"
  s3_put_object :: "s3_client \<Rightarrow> body \<Rightarrow> pystr \<Rightarrow> pystr \<Rightarrow> 'w \<Rightarrow> (exn + pyval) \<times> 'w"
  s3_delete_object :: "s3_client \<Rightarrow> pystr \<Rightarrow> pystr \<Rightarrow> 'w \<Rightarrow> (exn + pyval) \<times> 'w"
  requests_get :: "pystr \<Rightarrow> (pystr \<times> pystr) list \<Rightarrow> 'w \<Rightarrow> (exn + http_response) \<times> 'w"

text \<open>The calls an operation made, in order, with their arguments.\<close>

datatype call =
    Open_rb pystr
  | Create_bucket s3_client pystr
  | List_buckets s3_client
  | Put_object s3_client body pystr pystr
  | Delete_object s3_client pystr pystr
  | Get pystr "(pystr \<times> pystr) list"

text \<open>
  How a method call ends: it returns a value, it returns an exception object as its
  value, or an exception leaves the method.
\<close>

datatype outcome = Returns pyval | ReturnsException exn | Raises exn

record 'w run =
  result :: outcome
  client :: Filebase
  world :: 'w
  calls :: "call list"

definition try_except :: "exn + pyval \<Rightarrow> outcome" where
  \<comment> \<open>\<open>try: return ... except Exception as error: return error\<close>\<close>
  "try_except r = (case r of Inl e \<Rightarrow> ReturnsException e | Inr v \<Rightarrow> Returns v)"

definition if_status_200 :: "pyval \<Rightarrow> exn + pyval \<Rightarrow> exn + pyval" where
  \<comment> \<open>\<open>success if response['ResponseMetadata']['HTTPStatusCode'] == 200
      else self.handle_error(response)\<close>\<close>
  "if_status_200 response success =
     (case http_status response of
        Inl e \<Rightarrow> Inl e
      | Inr code \<Rightarrow> if code = PInt 200 then success else handle_error (Obj response))"

definition cid_header :: "pyval \<Rightarrow> exn + pyval" where
  \<comment> \<open>\<open>response['ResponseMetadata']['HTTPHeaders']['x-amz-meta-cid']\<close>\<close>
  "cid_header response =
     (case getitem response (str_of ''ResponseMetadata'') of
        Inl e \<Rightarrow> Inl e
      | Inr md \<Rightarrow>
          (case getitem md (str_of ''HTTPHeaders'') of
             Inl e \<Rightarrow> Inl e
           | Inr hs \<Rightarrow> getitem hs (str_of ''x-amz-meta-cid'')))"

section \<open>The operations\<close>

definition create_bucket :: "'w env \<Rightarrow> Filebase \<Rightarrow> pystr \<Rightarrow> 'w \<Rightarrow> 'w run" where
  "create_bucket E self name w =
     (let bucket = str_lower E name;
          (r, w') = s3_create_bucket E (s3 self) bucket w
      in \<lparr>result = try_except
                      (case r of
                         Inl e \<Rightarrow> Inl e
                       | Inr response \<Rightarrow> if_status_200 response (Inr response)),
          client = self, world = w',
          calls = [Create_bucket (s3 self) bucket]\<rparr>)"

definition token_text :: "Filebase \<Rightarrow> pystr \<Rightarrow> pystr" where
  \<comment> \<open>\<open>f"{self.filebase_api_key}:{self.filebase_secret_api_key}:{bucket}"\<close>\<close>
  "token_text self bucket =
     filebase_api_key self @ str_of '':'' @ filebase_secret_api_key self @ str_of '':'' @ bucket"

definition pins_url :: pystr where
  "pins_url = API_ENDPOINT @ str_of ''ipfs/pins''"

definition bearer_headers :: "Filebase \<Rightarrow> pystr \<Rightarrow> exn + (pystr \<times> pystr) list" where
  \<comment> \<open>the header dictionary that \<open>list_pinned_objects\<close> builds before its \<open>try\<close>\<close>
  "bearer_headers self bucket =
     (case utf8_encode (token_text self bucket) of
        Inl e \<Rightarrow> Inl e
      | Inr raw \<Rightarrow>
          (case utf8_decode (b64encode raw) of
             Inl e \<Rightarrow> Inl e
           | Inr base64encoded \<Rightarrow>
               Inr [(str_of ''Authorization'', str_of ''Bearer '' @ base64encoded),
                    (str_of ''Content-Type'', str_of ''application/json'')]))"

definition list_pinned_objects :: "'w env \<Rightarrow> Filebase \<Rightarrow> pystr \<Rightarrow> 'w \<Rightarrow> 'w run" where
  "list_pinned_objects E self bucket w =
     (case bearer_headers self bucket of
        Inl e \<Rightarrow> \<lparr>result = Raises e, client = self, world = w, calls = []\<rparr>
      | Inr headers \<Rightarrow>
          (let url = pins_url;
               (r, w') = requests_get E url headers w
           in \<lparr>result = try_except
                           (case r of
                              Inl e \<Rightarrow> Inl e
                            | Inr response \<Rightarrow>
                                if ok response then json_result response
                                else handle_error (Response response)),
               client = self, world = w',
               calls = [Get url headers]\<rparr>))"

definition list_buckets :: "'w env \<Rightarrow> Filebase \<Rightarrow> 'w \<Rightarrow> 'w run" where
  "list_buckets E self w =
     (let (r, w') = s3_list_buckets E (s3 self) w
      in \<lparr>result = try_except
                      (case r of
                         Inl e \<Rightarrow> Inl e
                       | Inr response \<Rightarrow>
                           if_status_200 response (getitem response (str_of ''Buckets''))),
          client = self, world = w',
          calls = [List_buckets (s3 self)]\<rparr>)"

definition upload_object :: "'w env \<Rightarrow> Filebase \<Rightarrow> pystr \<Rightarrow> pystr \<Rightarrow> pystr \<Rightarrow> 'w \<Rightarrow> 'w run" where
  "upload_object E self path_to_file name bucket w =
     (case open_rb E path_to_file w of
        (Inl e, w1) \<Rightarrow>
          \<lparr>result = ReturnsException e, client = self, world = w1,
           calls = [Open_rb path_to_file]\<rparr>
      | (Inr file, w1) \<Rightarrow>
          (let lowered = str_lower E bucket;
               (r, w') = s3_put_object E (s3 self) (BodyFile file) lowered name w1
           in \<lparr>result = try_except
                           (case r of
                              Inl e \<Rightarrow> Inl e
                            | Inr response \<Rightarrow> if_status_200 response (cid_header response)),
               client = self, world = w',
               calls = [Open_rb path_to_file,
                        Put_object (s3 self) (BodyFile file) lowered name]\<rparr>))"

definition delete_object :: "'w env \<Rightarrow> Filebase \<Rightarrow> pystr \<Rightarrow> pystr \<Rightarrow> 'w \<Rightarrow> 'w run" where
  "delete_object E self name bucket w =
     (let lowered = str_lower E bucket;
          (r, w') = s3_delete_object E (s3 self) lowered name w
      in \<lparr>result = try_except
                      (case r of
                         Inl e \<Rightarrow> Inl e
                       | Inr response \<Rightarrow> if_status_200 response (Inr response)),
          client = self, world = w',
          calls = [Delete_object (s3 self) lowered name]\<rparr>)"

definition encoded_metadata :: "pyval \<Rightarrow> exn + bytes" where
  \<comment> \<open>\<open>json.dumps(data, indent=4).encode('utf-8')\<close>\<close>
  "encoded_metadata data =
     (case json_dumps data of Inl e \<Rightarrow> Inl e | Inr text \<Rightarrow> utf8_encode text)"

definition upload_metadata :: "'w env \<Rightarrow> Filebase \<Rightarrow> pyval \<Rightarrow> pystr \<Rightarrow> pystr \<Rightarrow> 'w \<Rightarrow> 'w run" where
  "upload_metadata E self data name bucket w =
     (case encoded_metadata data of
        Inl e \<Rightarrow> \<lparr>result = ReturnsException e, client = self, world = w, calls = []\<rparr>
      | Inr payload \<Rightarrow>
          (let lowered = str_lower E bucket;
               (r, w') = s3_put_object E (s3 self) (BodyBytes payload) lowered name w
           in \<lparr>result = try_except
                           (case r of
                              Inl e \<Rightarrow> Inl e
                            | Inr response \<Rightarrow> if_status_200 response (cid_header response)),
               client = self, world = w',
               calls = [Put_object (s3 self) (BodyBytes payload) lowered name]\<rparr>))"

section \<open>Mock surroundings\<close>

text \<open>
  A test double of the outside world: it counts the calls it serves and gives every call
  of a kind the same answer. Its \<open>str_lower\<close> is lower-casing of the ASCII letters.
\<close>

definition ascii_lower :: "pystr \<Rightarrow> pystr" where
  "ascii_lower s = map (\<lambda>c. if 65 \<le> c \<and> c \<le> 90 then c + 32 else c) s"

definition mock :: "exn + pyfile \<Rightarrow> exn + pyval \<Rightarrow> exn + http_response \<Rightarrow> nat env" where
  "mock opened stored fetched =
     \<lparr>str_lower = ascii_lower,
      open_rb = (\<lambda>path w. (opened, Suc w)),
      s3_create_bucket = (\<lambda>h bucket w. (stored, Suc w)),
      s3_list_buckets = (\<lambda>h w. (stored, Suc w)),
      s3_put_object = (\<lambda>h b bucket key w. (stored, Suc w)),
      s3_delete_object = (\<lambda>h bucket key w. (stored, Suc w)),
      requests_get = (\<lambda>url headers w. (fetched, Suc w))\<rparr>"

definition s3_response :: "int \<Rightarrow> (pystr \<times> pyval) list \<Rightarrow> pyval" where
  "s3_response code headers =
     PDict [(str_of ''ResponseMetadata'',
             PDict [(str_of ''HTTPStatusCode'', PInt code),
                    (str_of ''HTTPHeaders'', PDict headers)])]"

definition http_reply :: "int \<Rightarrow> pystr \<Rightarrow> pystr \<Rightarrow> exn + pyval \<Rightarrow> http_response" where
  "http_reply code phrase content parsed =
     \<lparr>status_code = code, reason = phrase, text_str = content, json_result = parsed\<rparr>"

definition demo_client :: Filebase where
  "demo_client = init (str_of ''k'') (str_of ''s'')"

section \<open>Sessions\<close>

text \<open>A caller's use of a client: method calls one after another on the same object.\<close>

datatype request =
    CreateBucket pystr
  | ListPinnedObjects pystr
  | ListBuckets
  | UploadObject pystr pystr pystr
  | DeleteObject pystr pystr
  | UploadMetadata pyval pystr pystr

fun perform :: "'w env \<Rightarrow> Filebase \<Rightarrow> request \<Rightarrow> 'w \<Rightarrow> 'w run" where
  "perform E self (CreateBucket name) w = create_bucket E self name w"
| "perform E self (ListPinnedObjects bucket) w = list_pinned_objects E self bucket w"
| "perform E self ListBuckets w = list_buckets E self w"
| "perform E self (UploadObject path_to_file name bucket) w =
     upload_object E self path_to_file name bucket w"
| "perform E self (DeleteObject name bucket) w = delete_object E self name bucket w"
| "perform E self (UploadMetadata data name bucket) w =
     upload_metadata E self data name bucket w"

text \<open>
  The runs of a sequence of calls: each call starts from the client object and the world
  that the call before it left behind, whether that call returned or raised.
\<close>

fun session :: "'w env \<Rightarrow> Filebase \<Rightarrow> request list \<Rightarrow> 'w \<Rightarrow> 'w run list" where
  "session E self [] w = []"
| "session E self (q # qs) w =
     (let r = perform E self q w in r # session E (client r) qs (world r))"

section \<open>Auxiliary notions\<close>

definition ascii :: "nat list \<Rightarrow> bool" where
  "ascii bs = list_all (\<lambda>c. c < 128) bs"

text \<open>A Unicode scalar value: a code point that is not a surrogate.\<close>

definition scalar_value :: "nat \<Rightarrow> bool" where
  "scalar_value cp = (cp < 0xD800 \<or> (0xDFFF < cp \<and> cp < 0x110000))"

definition unicode_text :: "pystr \<Rightarrow> bool" where
  "unicode_text s = list_all scalar_value s"



text \<open>What may follow a number in a document without becoming part of it.\<close>

definition number_end :: "pystr \<Rightarrow> bool" where
  "number_end rest =
     (case rest of
        [] \<Rightarrow> True
      | c # _ \<Rightarrow> \<not> is_digit c \<and> c \<noteq> 0x2E \<and> c \<noteq> 0x65 \<and> c \<noteq> 0x45)"


section \<open>Reading a response\<close>

lemma getitem_Inr_dict:
  "getitem d k = Inr v \<Longrightarrow> \<exists>kvs. d = PDict kvs \<and> map_of kvs k = Some v"
  by (cases d) (auto split: option.splits)

lemma http_status_dict:
  "http_status response = Inr code \<Longrightarrow> \<exists>kvs. response = PDict kvs"
  by (auto simp: http_status_def split: sum.splits dest: getitem_Inr_dict)

lemma handle_error_dict:
  "http_status response = Inr code \<Longrightarrow>
   handle_error (Obj response) =
     Inr (PDict [(str_of ''status'', code), (str_of ''reason'', code),
                 (str_of ''text'', response)])"
  using http_status_dict [of response code] by auto

lemma handle_error_dict_no_status:
  "http_status (PDict kvs) = Inl e \<Longrightarrow> handle_error (Obj (PDict kvs)) = Inl e"
  by simp

text \<open>
  C2. Given a dictionary, \<open>handle_error\<close> returns the record whose \<open>status\<close> and whose
  \<open>reason\<close> are both the HTTP status code found in the dictionary and whose \<open>text\<close> is
  the whole dictionary; given an HTTP response object, it returns the record of the
  object's status code, reason phrase and body text.
\<close>

theorem handle_error_normalises:
  "(\<forall>code. http_status (PDict kvs) = Inr code \<longrightarrow>
      handle_error (Obj (PDict kvs)) =
        Inr (PDict [(str_of ''status'', code), (str_of ''reason'', code),
                    (str_of ''text'', PDict kvs)]))
   \<and> handle_error (Response r) =
        Inr (PDict [(str_of ''status'', PInt (status_code r)),
                    (str_of ''reason'', PStr (reason r)),
                    (str_of ''text'', PStr (text_str r))])"
  by simp

theorem handle_error_normalises_witness:
  "http_status (s3_response 404 []) = Inr (PInt 404)
   \<and> handle_error (Obj (s3_response 404 [])) =
        Inr (PDict [(str_of ''status'', PInt 404), (str_of ''reason'', PInt 404),
                    (str_of ''text'', s3_response 404 [])])
   \<and> handle_error (Response (http_reply 500 (str_of ''Internal Server Error'') (str_of ''oops'')
                               (Inl JSONDecodeError))) =
        Inr (PDict [(str_of ''status'', PInt 500),
                    (str_of ''reason'', PStr (str_of ''Internal Server Error'')),
                    (str_of ''text'', PStr (str_of ''oops''))])"
proof -
  have status: "http_status (s3_response 404 []) = Inr (PInt 404)"
    by (simp add: http_status_def s3_response_def str_of_def)
  from handle_error_normalises
    [of "[(str_of ''ResponseMetadata'',
           PDict [(str_of ''HTTPStatusCode'', PInt 404), (str_of ''HTTPHeaders'', PDict [])])]"
        "http_reply 500 (str_of ''Internal Server Error'') (str_of ''oops'') (Inl JSONDecodeError)"]
  show ?thesis
    using status by (simp add: s3_response_def http_reply_def)
qed

section \<open>Encodings\<close>

lemma utf8_decode_ascii: "ascii bs \<Longrightarrow> utf8_decode bs = Inr bs"
  by (induction bs) (simp_all add: ascii_def)


lemma b64_alphabet_ascii: "length b64_alphabet = 64 \<and> ascii b64_alphabet"
  by (simp add: b64_alphabet_def ascii_def str_of_def)

lemma b64_char_ascii: "b64_char i < 128"
proof -
  have "i mod 64 < length b64_alphabet"
    using b64_alphabet_ascii by simp
  then show ?thesis
    using b64_alphabet_ascii by (simp add: b64_char_def ascii_def list_all_length)
qed

lemma b64encode_ascii: "ascii (b64encode bs)"
  by (induction bs rule: b64encode.induct) (simp_all add: ascii_def b64_char_ascii Let_def)

lemma utf8_encode_cp_error: "utf8_encode_cp cp = Inl e \<Longrightarrow> e = UnicodeEncodeError"
  by (simp add: utf8_encode_cp_def split: if_splits)

lemma utf8_encode_error: "utf8_encode s = Inl e \<Longrightarrow> e = UnicodeEncodeError"
  by (induction s) (auto split: sum.splits dest: utf8_encode_cp_error)

lemma utf8_encode_surrogate: "utf8_encode (s @ 0xD800 # t) = Inl UnicodeEncodeError"
proof (induction s)
  case Nil
  show ?case by (simp add: utf8_encode_cp_def)
next
  case (Cons cp s)
  then show ?case
    by (cases "utf8_encode_cp cp") (auto dest: utf8_encode_cp_error)
qed

lemma bearer_headers_Inr:
  "utf8_encode (token_text self bucket) = Inr raw \<Longrightarrow>
   bearer_headers self bucket =
     Inr [(str_of ''Authorization'', str_of ''Bearer '' @ b64encode raw),
          (str_of ''Content-Type'', str_of ''application/json'')]"
  by (simp add: bearer_headers_def utf8_decode_ascii b64encode_ascii)

lemma bearer_headers_Inl:
  "utf8_encode (token_text self bucket) = Inl e \<Longrightarrow> bearer_headers self bucket = Inl e"
  by (simp add: bearer_headers_def)

lemma bearer_headers_Inl_iff:
  "bearer_headers self bucket = Inl e \<longleftrightarrow> utf8_encode (token_text self bucket) = Inl e"
  by (cases "utf8_encode (token_text self bucket)")
     (simp_all add: bearer_headers_Inr bearer_headers_Inl)

section \<open>Exceptions at the boundary of an operation\<close>

lemma try_except_simps [simp]:
  "try_except (Inl e) = ReturnsException e"
  "try_except (Inr v) = Returns v"
  by (simp_all add: try_except_def)

lemma try_except_not_Raises [simp]: "try_except r \<noteq> Raises e"
  by (cases r) simp_all

section \<open>The branch on the status code\<close>

lemma if_status_200_yes:
  "http_status response = Inr (PInt 200) \<Longrightarrow> if_status_200 response success = success"
  by (simp add: if_status_200_def)

lemma if_status_200_no:
  "http_status response = Inr code \<Longrightarrow> code \<noteq> PInt 200 \<Longrightarrow>
   if_status_200 response success =
     Inr (PDict [(str_of ''status'', code), (str_of ''reason'', code),
                 (str_of ''text'', response)])"
  by (simp add: if_status_200_def handle_error_dict)

section \<open>Which operations can raise\<close>

lemma create_bucket_returns: "result (create_bucket E self name w) \<noteq> Raises e"
  by (simp add: create_bucket_def Let_def split: prod.splits)

lemma list_buckets_returns: "result (list_buckets E self w) \<noteq> Raises e"
  by (simp add: list_buckets_def Let_def split: prod.splits)

lemma upload_object_returns:
  "result (upload_object E self path_to_file name bucket w) \<noteq> Raises e"
  by (simp add: upload_object_def Let_def split: prod.splits sum.splits)

lemma delete_object_returns: "result (delete_object E self name bucket w) \<noteq> Raises e"
  by (simp add: delete_object_def Let_def split: prod.splits)

lemma upload_metadata_returns:
  "result (upload_metadata E self data name bucket w) \<noteq> Raises e"
  by (simp add: upload_metadata_def Let_def split: prod.splits sum.splits)

lemma list_pinned_objects_raises_iff:
  "result (list_pinned_objects E self bucket w) = Raises e
   \<longleftrightarrow> utf8_encode (token_text self bucket) = Inl e"
  by (cases "utf8_encode (token_text self bucket)")
     (simp_all add: list_pinned_objects_def Let_def bearer_headers_Inl bearer_headers_Inr
           split: prod.splits)

lemma backend_failure_is_returned:
  "s3_create_bucket E (s3 self) (str_lower E name) w = (Inl e, w') \<Longrightarrow>
     result (create_bucket E self name w) = ReturnsException e"
  "s3_list_buckets E (s3 self) w = (Inl e, w') \<Longrightarrow>
     result (list_buckets E self w) = ReturnsException e"
  "s3_delete_object E (s3 self) (str_lower E bucket) name w = (Inl e, w') \<Longrightarrow>
     result (delete_object E self name bucket w) = ReturnsException e"
  "open_rb E path_to_file w = (Inl e, w') \<Longrightarrow>
     result (upload_object E self path_to_file name bucket w) = ReturnsException e"
  by (simp_all add: create_bucket_def list_buckets_def delete_object_def upload_object_def)

section \<open>The mock at work\<close>

lemma mock_simps [simp]:
  "str_lower (mock a b c) = ascii_lower"
  "open_rb (mock a b c) path w = (a, Suc w)"
  "s3_create_bucket (mock a b c) h bucket w = (b, Suc w)"
  "s3_list_buckets (mock a b c) h w = (b, Suc w)"
  "s3_put_object (mock a b c) h body bucket key w = (b, Suc w)"
  "s3_delete_object (mock a b c) h bucket key w = (b, Suc w)"
  "requests_get (mock a b c) url headers w = (c, Suc w)"
  by (simp_all add: mock_def)

lemma demo_token:
  "utf8_encode (token_text demo_client (str_of ''bucketname'')) = Inr (str_of ''k:s:bucketname'')"
  by (simp add: token_text_def demo_client_def init_def str_of_def utf8_encode_cp_def)

lemma demo_headers:
  "bearer_headers demo_client (str_of ''bucketname'') =
     Inr [(str_of ''Authorization'', str_of ''Bearer '' @ b64encode (str_of ''k:s:bucketname'')),
          (str_of ''Content-Type'', str_of ''application/json'')]"
  by (rule bearer_headers_Inr) (rule demo_token)

section \<open>Listing pinned objects\<close>

text \<open>
  C3. When the pin-status backend answers the GET with an HTTP response: if the response
  is OK, \<open>list_pinned_objects\<close> returns the parsed JSON body; if it is not OK, it returns
  the record of the response's status code, reason phrase and body text, and does not
  raise.
\<close>

theorem list_pinned_objects_response:
  assumes "bearer_headers self bucket = Inr headers"
    and "requests_get E (API_ENDPOINT @ str_of ''ipfs/pins'') headers w = (Inr r, w')"
  shows "(ok r \<longrightarrow> (\<forall>v. json_result r = Inr v \<longrightarrow>
            result (list_pinned_objects E self bucket w) = Returns v))
       \<and> (\<not> ok r \<longrightarrow>
            result (list_pinned_objects E self bucket w) =
              Returns (PDict [(str_of ''status'', PInt (status_code r)),
                              (str_of ''reason'', PStr (reason r)),
                              (str_of ''text'', PStr (text_str r))]))"
  using assms by (simp add: list_pinned_objects_def pins_url_def)

theorem list_pinned_objects_response_witness:
  "result (list_pinned_objects
             (mock (Inl (FileNotFoundError [])) (Inl ConnectionError)
                (Inr (http_reply 200 (str_of ''OK'') (str_of ''[]'') (Inr (PList [])))))
             demo_client (str_of ''bucketname'') 0) = Returns (PList [])
   \<and> result (list_pinned_objects
             (mock (Inl (FileNotFoundError [])) (Inl ConnectionError)
                (Inr (http_reply 500 (str_of ''Internal Server Error'') (str_of ''oops'')
                        (Inl JSONDecodeError))))
             demo_client (str_of ''bucketname'') 0) =
       Returns (PDict [(str_of ''status'', PInt 500),
                       (str_of ''reason'', PStr (str_of ''Internal Server Error'')),
                       (str_of ''text'', PStr (str_of ''oops''))])"
proof -
  let ?good = "http_reply 200 (str_of ''OK'') (str_of ''[]'') (Inr (PList []))"
  let ?bad = "http_reply 500 (str_of ''Internal Server Error'') (str_of ''oops'')
                (Inl JSONDecodeError)"
  let ?E = "\<lambda>r. mock (Inl (FileNotFoundError [])) (Inl ConnectionError) (Inr r)"
  have "ok ?good" and "\<not> ok ?bad" and "json_result ?good = Inr (PList [])"
    by (simp_all add: ok_def http_reply_def)
  moreover have "requests_get (?E r) (API_ENDPOINT @ str_of ''ipfs/pins'') hs 0 = (Inr r, Suc 0)"
    for r hs by simp
  ultimately show ?thesis
    using list_pinned_objects_response [OF demo_headers, of "?E ?good" 0 ?good "Suc 0"]
      list_pinned_objects_response [OF demo_headers, of "?E ?bad" 0 ?bad "Suc 0"]
    by (simp add: http_reply_def)
qed

text \<open>
  C9. When the response is OK and its body does not parse as JSON, \<open>list_pinned_objects\<close>
  returns the decoding exception as its value.
\<close>

theorem list_pinned_objects_bad_json:
  assumes "bearer_headers self bucket = Inr headers"
    and "requests_get E (API_ENDPOINT @ str_of ''ipfs/pins'') headers w = (Inr r, w')"
    and "ok r" and "json_result r = Inl e"
  shows "result (list_pinned_objects E self bucket w) = ReturnsException e"
  using assms by (simp add: list_pinned_objects_def pins_url_def)

theorem list_pinned_objects_bad_json_witness:
  "result (list_pinned_objects
             (mock (Inl (FileNotFoundError [])) (Inl ConnectionError)
                (Inr (http_reply 200 (str_of ''OK'') (str_of ''<html>'') (Inl JSONDecodeError))))
             demo_client (str_of ''bucketname'') 0) = ReturnsException JSONDecodeError"
proof -
  let ?r = "http_reply 200 (str_of ''OK'') (str_of ''<html>'') (Inl JSONDecodeError)"
  let ?E = "mock (Inl (FileNotFoundError [])) (Inl ConnectionError) (Inr ?r)"
  have "ok ?r" and "json_result ?r = Inl JSONDecodeError"
    by (simp_all add: ok_def http_reply_def)
  moreover have "requests_get ?E (API_ENDPOINT @ str_of ''ipfs/pins'') hs 0 = (Inr ?r, Suc 0)"
    for hs by simp
  ultimately show ?thesis
    using list_pinned_objects_bad_json [OF demo_headers, of ?E 0 ?r "Suc 0" JSONDecodeError]
    by simp
qed


section \<open>Uploads\<close>

text \<open>
  C7. For a backend response to \<open>upload_object\<close> with status code 200 the operation
  returns the value of the response header \<open>x-amz-meta-cid\<close>; for one with another status
  code it returns the normalised error record.
\<close>

theorem upload_object_status:
  assumes "open_rb E path_to_file w = (Inr f, w1)"
    and "s3_put_object E (s3 self) (BodyFile f) (str_lower E bucket) name w1 = (Inr response, w')"
    and "http_status response = Inr code"
  shows "(code = PInt 200 \<longrightarrow> (\<forall>cid. cid_header response = Inr cid \<longrightarrow>
            result (upload_object E self path_to_file name bucket w) = Returns cid))
       \<and> (code \<noteq> PInt 200 \<longrightarrow>
            result (upload_object E self path_to_file name bucket w) =
              Returns (PDict [(str_of ''status'', code), (str_of ''reason'', code),
                              (str_of ''text'', response)]))"
  using assms by (simp add: upload_object_def if_status_200_yes if_status_200_no)

lemma s3_response_status: "http_status (s3_response code hs) = Inr (PInt code)"
  by (simp add: http_status_def s3_response_def str_of_def)

lemma s3_response_cid:
  "cid_header (s3_response code hs) = getitem (PDict hs) (str_of ''x-amz-meta-cid'')"
  by (simp add: cid_header_def s3_response_def str_of_def)

theorem upload_object_status_witness:
  "result (upload_object
             (mock (Inr (FileObject 3))
                (Inr (s3_response 200 [(str_of ''x-amz-meta-cid'', PStr (str_of ''QmX''))]))
                (Inl ConnectionError))
             demo_client (str_of ''/dir/to/file/test.png'') (str_of ''testpng'')
             (str_of ''bucketname'') 0) = Returns (PStr (str_of ''QmX''))
   \<and> result (upload_object
             (mock (Inr (FileObject 3)) (Inr (s3_response 403 [])) (Inl ConnectionError))
             demo_client (str_of ''/dir/to/file/test.png'') (str_of ''testpng'')
             (str_of ''bucketname'') 0) =
       Returns (PDict [(str_of ''status'', PInt 403), (str_of ''reason'', PInt 403),
                       (str_of ''text'', s3_response 403 [])])"
proof -
  let ?good = "s3_response 200 [(str_of ''x-amz-meta-cid'', PStr (str_of ''QmX''))]"
  let ?bad = "s3_response 403 []"
  let ?E = "\<lambda>r. mock (Inr (FileObject 3)) (Inr r) (Inl ConnectionError)"
  have opened: "open_rb (?E r) p 0 = (Inr (FileObject 3), Suc 0)" for r p
    by simp
  have put: "s3_put_object (?E r) h (BodyFile (FileObject 3)) b k (Suc 0) = (Inr r, Suc (Suc 0))"
    for r h b k by simp
  have cid: "cid_header ?good = Inr (PStr (str_of ''QmX''))"
    by (simp add: s3_response_cid)
  show ?thesis
    using upload_object_status [OF opened [of ?good] put [of ?good] s3_response_status]
      upload_object_status [OF opened [of ?bad] put [of ?bad] s3_response_status]
      cid
    by simp
qed

lemma cid_header_missing:
  assumes "getitem response (str_of ''ResponseMetadata'') = Inr md"
    and "getitem md (str_of ''HTTPHeaders'') = Inr (PDict hs)"
    and "map_of hs (str_of ''x-amz-meta-cid'') = None"
  shows "cid_header response = Inl (KeyError (str_of ''x-amz-meta-cid''))"
  using assms by (simp add: cid_header_def)

text \<open>
  C10. When the backend answers \<open>upload_object\<close> or \<open>upload_metadata\<close> with status code
  200 and response headers that lack \<open>x-amz-meta-cid\<close>, the operation returns the
  \<open>KeyError\<close> of the failed lookup as its value.
\<close>

theorem upload_without_cid_header:
  assumes "http_status response = Inr (PInt 200)"
    and "getitem response (str_of ''ResponseMetadata'') = Inr md"
    and "getitem md (str_of ''HTTPHeaders'') = Inr (PDict hs)"
    and "map_of hs (str_of ''x-amz-meta-cid'') = None"
  shows "(\<forall>f w1. open_rb E path_to_file w = (Inr f, w1)
            \<and> s3_put_object E (s3 self) (BodyFile f) (str_lower E bucket) name w1
                = (Inr response, w')
          \<longrightarrow> result (upload_object E self path_to_file name bucket w)
                = ReturnsException (KeyError (str_of ''x-amz-meta-cid'')))
       \<and> (\<forall>payload. encoded_metadata data = Inr payload
            \<and> s3_put_object E (s3 self) (BodyBytes payload) (str_lower E bucket) name w
                = (Inr response, w')
          \<longrightarrow> result (upload_metadata E self data name bucket w)
                = ReturnsException (KeyError (str_of ''x-amz-meta-cid'')))"
  using assms
  by (simp add: upload_object_def upload_metadata_def if_status_200_yes cid_header_missing)

lemma encoded_metadata_path:
  "encoded_metadata (PStr (str_of ''/dir/to/file/metadata.json'')) =
     Inr (34 # str_of ''/dir/to/file/metadata.json'' @ [34])"
  by (simp add: encoded_metadata_def json_dumps_def encode_basestring_ascii_def escape_cp_def
        str_of_def utf8_encode_cp_def)

theorem upload_without_cid_header_witness:
  "result (upload_object
             (mock (Inr (FileObject 3)) (Inr (s3_response 200 [])) (Inl ConnectionError))
             demo_client (str_of ''/dir/to/file/test.png'') (str_of ''testpng'')
             (str_of ''bucketname'') 0) = ReturnsException (KeyError (str_of ''x-amz-meta-cid''))
   \<and> result (upload_metadata
             (mock (Inr (FileObject 3)) (Inr (s3_response 200 [])) (Inl ConnectionError))
             demo_client (PStr (str_of ''/dir/to/file/metadata.json'')) (str_of ''mymetadata'')
             (str_of ''bucketname'') 0) = ReturnsException (KeyError (str_of ''x-amz-meta-cid''))"
proof -
  let ?r = "s3_response 200 []"
  let ?E = "mock (Inr (FileObject 3)) (Inr ?r) (Inl ConnectionError)"
  have md: "getitem ?r (str_of ''ResponseMetadata'') =
              Inr (PDict [(str_of ''HTTPStatusCode'', PInt 200), (str_of ''HTTPHeaders'', PDict [])])"
    by (simp add: s3_response_def)
  have hs: "getitem (PDict [(str_of ''HTTPStatusCode'', PInt 200), (str_of ''HTTPHeaders'', PDict [])])
              (str_of ''HTTPHeaders'') = Inr (PDict [])"
    by (simp add: str_of_def)
  have none: "map_of ([] :: (pystr \<times> pyval) list) (str_of ''x-amz-meta-cid'') = None"
    by simp
  show ?thesis
    using upload_without_cid_header [OF s3_response_status md hs none,
        of ?E "str_of ''/dir/to/file/test.png''" 0 demo_client "str_of ''bucketname''"
           "str_of ''testpng''" "Suc (Suc 0)"]
      upload_without_cid_header [OF s3_response_status md hs none,
        of ?E _ 0 demo_client "str_of ''bucketname''" "str_of ''mymetadata''" "Suc 0"
           "PStr (str_of ''/dir/to/file/metadata.json'')"]
      encoded_metadata_path
    by simp
qed

section \<open>The client object\<close>

lemma perform_client: "client (perform E self q w) = self"
  by (cases q)
     (simp_all add: create_bucket_def list_pinned_objects_def list_buckets_def upload_object_def
        delete_object_def upload_metadata_def Let_def split: prod.splits sum.splits)

text \<open>
  C8. Through any sequence of operation calls the client object stays what it was: after
  every call its API key, its secret key and its S3 handle are those before the call.
\<close>

theorem client_unchanged:
  "map client (session E self qs w) = replicate (length qs) self"
proof (induction qs arbitrary: w)
  case Nil
  show ?case by simp
next
  case (Cons q qs)
  have "client (perform E self q w) = self"
    by (rule perform_client)
  with Cons.IH show ?case
    by (simp add: Let_def)
qed

theorem client_unchanged_witness:
  "map client
     (session (mock (Inl (FileNotFoundError [])) (Inr (s3_response 200 [])) (Inl ConnectionError))
        (init (str_of ''k'') (str_of ''s''))
        [CreateBucket (str_of ''MyNewBucket''), UploadObject [] [] [], ListPinnedObjects [0xD800],
         ListBuckets] 0)
   = [init (str_of ''k'') (str_of ''s''), init (str_of ''k'') (str_of ''s''),
      init (str_of ''k'') (str_of ''s''), init (str_of ''k'') (str_of ''s'')]"
  using client_unchanged
    [of "mock (Inl (FileNotFoundError [])) (Inr (s3_response 200 [])) (Inl ConnectionError)"
        "init (str_of ''k'') (str_of ''s'')"
        "[CreateBucket (str_of ''MyNewBucket''), UploadObject [] [] [], ListPinnedObjects [0xD800],
          ListBuckets]" 0]
  by simp

section \<open>An exception that leaves its operation\<close>

text \<open>
  C1, at the input where it fails. A bucket name holding a lone surrogate cannot be
  encoded as UTF-8; \<open>list_pinned_objects\<close> builds its token before its \<open>try\<close> block, so
  the \<open>UnicodeEncodeError\<close> leaves the operation instead of being returned, and no
  request is made. (The other five operations never raise: \<open>create_bucket_returns\<close>,
  \<open>list_buckets_returns\<close>, \<open>upload_object_returns\<close>, \<open>delete_object_returns\<close>,
  \<open>upload_metadata_returns\<close>; \<open>list_pinned_objects_raises_iff\<close> says when this one does.)
\<close>

theorem list_pinned_objects_raises:
  "result (list_pinned_objects E self [0xD800] w) = Raises UnicodeEncodeError
   \<and> calls (list_pinned_objects E self [0xD800] w) = []"
proof -
  have "utf8_encode (token_text self [0xD800]) = Inl UnicodeEncodeError"
    using utf8_encode_surrogate
      [of "filebase_api_key self @ str_of '':'' @ filebase_secret_api_key self @ str_of '':''" "[]"]
    by (simp add: token_text_def)
  then have "bearer_headers self [0xD800] = Inl UnicodeEncodeError"
    by (rule bearer_headers_Inl)
  then show ?thesis
    by (simp add: list_pinned_objects_def)
qed

theorem list_pinned_objects_raises_witness:
  "result (list_pinned_objects
             (mock (Inl (FileNotFoundError [])) (Inl ConnectionError) (Inl ConnectionError))
             demo_client [0xD800] 0) = Raises UnicodeEncodeError"
  using list_pinned_objects_raises
    [of "mock (Inl (FileNotFoundError [])) (Inl ConnectionError) (Inl ConnectionError)"
        demo_client 0]
  by simp

section \<open>The calls that the operations make\<close>

lemma utf8_encode_cp_scalar: "scalar_value cp \<Longrightarrow> \<exists>bs. utf8_encode_cp cp = Inr bs"
  by (auto simp: scalar_value_def utf8_encode_cp_def)

lemma utf8_encode_unicode_text: "unicode_text s \<Longrightarrow> \<exists>raw. utf8_encode s = Inr raw"
proof (induction s)
  case Nil
  show ?case by simp
next
  case (Cons cp s)
  then obtain bs raw where "utf8_encode_cp cp = Inr bs" and "utf8_encode s = Inr raw"
    using utf8_encode_cp_scalar [of cp] by (auto simp: unicode_text_def)
  then show ?case by simp
qed

lemma bearer_headers_surrogate: "bearer_headers self (s @ 0xD800 # t) = Inl UnicodeEncodeError"
proof -
  have "utf8_encode (token_text self (s @ 0xD800 # t)) = Inl UnicodeEncodeError"
    using utf8_encode_surrogate
      [of "filebase_api_key self @ str_of '':'' @ filebase_secret_api_key self @ str_of '':'' @ s" t]
    by (simp add: token_text_def)
  then show ?thesis
    by (rule bearer_headers_Inl)
qed

lemma s3_calls:
  "calls (create_bucket E self name w) = [Create_bucket (s3 self) (str_lower E name)]"
  "calls (list_buckets E self w) = [List_buckets (s3 self)]"
  "calls (delete_object E self name bucket w) =
     [Delete_object (s3 self) (str_lower E bucket) name]"
  "open_rb E path_to_file w = (Inr f, w1) \<Longrightarrow>
     calls (upload_object E self path_to_file name bucket w) =
       [Open_rb path_to_file, Put_object (s3 self) (BodyFile f) (str_lower E bucket) name]"
  "open_rb E path_to_file w = (Inl e, w1) \<Longrightarrow>
     calls (upload_object E self path_to_file name bucket w) = [Open_rb path_to_file]"
  "encoded_metadata data = Inr payload \<Longrightarrow>
     calls (upload_metadata E self data name bucket w) =
       [Put_object (s3 self) (BodyBytes payload) (str_lower E bucket) name]"
  "encoded_metadata data = Inl e \<Longrightarrow> calls (upload_metadata E self data name bucket w) = []"
  by (simp_all add: create_bucket_def list_buckets_def delete_object_def upload_object_def
        upload_metadata_def Let_def split: prod.splits)

text \<open>
  C6, amended. Whenever the text \<open>api_key:secret_key:bucket\<close> can be encoded as UTF-8,
  \<open>list_pinned_objects\<close> issues exactly one call, a GET to the base URL followed by
  \<open>ipfs/pins\<close>, whose headers are \<open>Authorization\<close>, equal to \<open>Bearer \<close> followed by the
  base64 form of that encoding, and \<open>Content-Type\<close>, equal to \<open>application/json\<close>.
  With a lone surrogate in the bucket name no request is issued at all.
\<close>

theorem list_pinned_objects_request:
  assumes "utf8_encode (filebase_api_key self @ str_of '':'' @ filebase_secret_api_key self
                        @ str_of '':'' @ bucket) = Inr raw"
  shows "calls (list_pinned_objects E self bucket w) =
           [Get (API_ENDPOINT @ str_of ''ipfs/pins'')
              [(str_of ''Authorization'', str_of ''Bearer '' @ b64encode raw),
               (str_of ''Content-Type'', str_of ''application/json'')]]"
proof -
  have "bearer_headers self bucket =
          Inr [(str_of ''Authorization'', str_of ''Bearer '' @ b64encode raw),
               (str_of ''Content-Type'', str_of ''application/json'')]"
    using assms by (intro bearer_headers_Inr) (simp add: token_text_def)
  then show ?thesis
    by (simp add: list_pinned_objects_def pins_url_def Let_def split: prod.splits)
qed

lemma b64_bucketname:
  "b64encode (str_of ''k:s:bucketname'') = str_of ''azpzOmJ1Y2tldG5hbWU=''"
  by (simp add: b64_char_def b64_alphabet_def str_of_def)

theorem list_pinned_objects_request_witness:
  "calls (list_pinned_objects
            (mock (Inl (FileNotFoundError [])) (Inl ConnectionError) (Inl ConnectionError))
            demo_client (str_of ''bucketname'') 0) =
     [Get (str_of ''https://api.filebase.io/v1/ipfs/pins'')
        [(str_of ''Authorization'', str_of ''Bearer azpzOmJ1Y2tldG5hbWU=''),
         (str_of ''Content-Type'', str_of ''application/json'')]]"
proof -
  have "utf8_encode (filebase_api_key demo_client @ str_of '':''
          @ filebase_secret_api_key demo_client @ str_of '':'' @ str_of ''bucketname'')
        = Inr (str_of ''k:s:bucketname'')"
    using demo_token by (simp add: token_text_def)
  from list_pinned_objects_request [OF this] show ?thesis
    by (simp add: b64_bucketname) (simp add: API_ENDPOINT_def str_of_def)
qed

theorem list_pinned_objects_request_counterexample:
  "calls (list_pinned_objects
            (mock (Inl (FileNotFoundError [])) (Inl ConnectionError) (Inl ConnectionError))
            demo_client [0xD800] 0) = []"
  using bearer_headers_surrogate [of demo_client "[]" "[]"]
  by (simp add: list_pinned_objects_def)

section \<open>The case of bucket names\<close>

lemma b64_MyBucket:
  "b64encode (str_of ''k:s:MyBucket'') = str_of ''azpzOk15QnVja2V0''"
  "b64encode (str_of ''k:s:mybucket'') = str_of ''azpzOm15YnVja2V0''"
  by (simp_all add: b64_char_def b64_alphabet_def str_of_def)

lemma demo_token_MyBucket:
  "utf8_encode (token_text demo_client (str_of ''MyBucket'')) = Inr (str_of ''k:s:MyBucket'')"
  "utf8_encode (token_text demo_client (ascii_lower (str_of ''MyBucket'')))
     = Inr (str_of ''k:s:mybucket'')"
  by (simp_all add: token_text_def demo_client_def init_def str_of_def utf8_encode_cp_def
        ascii_lower_def)

text \<open>
  C5, at the input where it fails. \<open>list_pinned_objects\<close> puts the bucket name into its
  token as given: for \<open>MyBucket\<close> the token is base64 of \<open>k:s:MyBucket\<close>, whatever
  \<open>str_lower\<close> does, and differs from the token of the lower-cased name; \<open>create_bucket\<close>
  submits the lower-cased name. (The S3 operations pass the lower-cased bucket and the
  object key as given: \<open>s3_calls\<close>.)
\<close>

theorem list_pinned_objects_keeps_case:
  "calls (list_pinned_objects E demo_client (str_of ''MyBucket'') w) =
     [Get (API_ENDPOINT @ str_of ''ipfs/pins'')
        [(str_of ''Authorization'', str_of ''Bearer azpzOk15QnVja2V0''),
         (str_of ''Content-Type'', str_of ''application/json'')]]
   \<and> bearer_headers demo_client (ascii_lower (str_of ''MyBucket'')) =
       Inr [(str_of ''Authorization'', str_of ''Bearer azpzOm15YnVja2V0''),
            (str_of ''Content-Type'', str_of ''application/json'')]
   \<and> calls (create_bucket E demo_client (str_of ''MyBucket'') w) =
       [Create_bucket (s3 demo_client) (str_lower E (str_of ''MyBucket''))]"
proof -
  have "bearer_headers demo_client (str_of ''MyBucket'') =
          Inr [(str_of ''Authorization'', str_of ''Bearer '' @ str_of ''azpzOk15QnVja2V0''),
               (str_of ''Content-Type'', str_of ''application/json'')]"
    using bearer_headers_Inr [OF demo_token_MyBucket(1)] by (simp add: b64_MyBucket)
  moreover have "bearer_headers demo_client (ascii_lower (str_of ''MyBucket'')) =
          Inr [(str_of ''Authorization'', str_of ''Bearer '' @ str_of ''azpzOm15YnVja2V0''),
               (str_of ''Content-Type'', str_of ''application/json'')]"
    using bearer_headers_Inr [OF demo_token_MyBucket(2)] by (simp add: b64_MyBucket)
  ultimately show ?thesis
    by (simp add: list_pinned_objects_def pins_url_def Let_def s3_calls str_of_def
          split: prod.splits)
qed

theorem list_pinned_objects_keeps_case_witness:
  "calls (list_pinned_objects
            (mock (Inl (FileNotFoundError [])) (Inl ConnectionError) (Inl ConnectionError))
            demo_client (str_of ''MyBucket'') 0) =
     [Get (API_ENDPOINT @ str_of ''ipfs/pins'')
        [(str_of ''Authorization'', str_of ''Bearer azpzOk15QnVja2V0''),
         (str_of ''Content-Type'', str_of ''application/json'')]]
   \<and> calls (create_bucket
            (mock (Inl (FileNotFoundError [])) (Inl ConnectionError) (Inl ConnectionError))
            demo_client (str_of ''MyBucket'') 0) =
       [Create_bucket (s3 demo_client) (str_of ''mybucket'')]"
  using list_pinned_objects_keeps_case
    [of "mock (Inl (FileNotFoundError [])) (Inl ConnectionError) (Inl ConnectionError)" 0]
  by (simp add: ascii_lower_def str_of_def)

section \<open>Serialising and reading back\<close>




lemma nat_repr_shape:
  "\<exists>d ds. nat_repr n = d # ds \<and> is_digit d \<and> (if n < 10 then ds = [] \<and> d = 48 + n else d \<noteq> 48)"
proof (induction n rule: nat_repr.induct)
  case (1 n)
  show ?case
  proof (cases "n < 10")
    case True
    then show ?thesis by (simp add: nat_repr.simps [of n] is_digit_def)
  next
    case False
    with 1 obtain d ds where *: "nat_repr (n div 10) = d # ds" "is_digit d"
      "if n div 10 < 10 then ds = [] \<and> d = 48 + n div 10 else d \<noteq> 48"
      by blast
    from False have "0 < n div 10" by simp
    with * have "d \<noteq> 48" by (auto split: if_splits)
    with * False show ?thesis by (simp add: nat_repr.simps [of n])
  qed
qed





lemma nat_repr_no_minus: "hd (nat_repr n) \<noteq> 0x2D \<and> nat_repr n \<noteq> []"
  using nat_repr_shape [of n] by (auto simp: is_digit_def)








lemma length_hex4 [simp]: "length (hex4 n) = 4"
  by (simp add: hex4_def)






lemma skip_ws_simps [simp]:
  "skip_ws [] = []"
  "\<not> is_ws c \<Longrightarrow> skip_ws (c # s) = c # s"
  "is_ws c \<Longrightarrow> skip_ws (c # s) = skip_ws s"
  "list_all is_ws ws \<Longrightarrow> skip_ws (ws @ s) = skip_ws s"
  by (simp_all add: skip_ws_def dropWhile_append list_all_iff)





lemma number_end_simps [simp]:
  "number_end []" "number_end (0x2C # s)" "number_end (0x5D # s)" "number_end (0x7D # s)"
  by (simp_all add: number_end_def is_digit_def)







lemma ws_then [simp]:
  "list_all is_ws ws \<Longrightarrow> \<not> is_ws d \<Longrightarrow> skip_ws (ws @ d # s) = d # s"
  by simp










lemma ascii_append [simp]: "ascii (xs @ ys) \<longleftrightarrow> ascii xs \<and> ascii ys"
  by (simp add: ascii_def)

lemma ascii_Cons [simp]: "ascii (c # cs) \<longleftrightarrow> c < 128 \<and> ascii cs"
  by (simp add: ascii_def)

lemma ascii_Nil [simp]: "ascii []"
  by (simp add: ascii_def)















section \<open>The fuel of the JSON scanner\<close>

lemma length_skip_ws: "length (skip_ws s) \<le> length s"
  by (simp add: skip_ws_def length_dropWhile_le)

lemma skip_ws_Cons_shorter: "skip_ws s = c # t \<Longrightarrow> length t < length s"
  using length_skip_ws [of s] by simp

lemma scanstring_step:
  assumes "scanstring (c # t) = Some (str, rest)"
  shows "rest = t \<or> (\<exists>x str'. scanstring x = Some (str', rest) \<and> length x \<le> length t)"
proof (cases "c = 0x22")
  case True
  with assms show ?thesis by simp
next
  case quote: False
  show ?thesis
  proof (cases "c = 0x5C")
    case False
    with quote assms obtain str' where "scanstring t = Some (str', rest)"
      by (auto split: if_splits option.splits)
    then show ?thesis by blast
  next
    case True
    with quote assms obtain esc s1 where t: "t = esc # s1"
      by (cases t) auto
    have "\<exists>k str'. scanstring (drop k s1) = Some (str', rest)"
    proof (cases "esc = 0x75")
      case False
      with t True quote assms obtain str' where "scanstring (drop 0 s1) = Some (str', rest)"
        by (auto split: option.splits)
      then show ?thesis by blast
    next
      case u: True
      with t True quote assms
      have "(\<exists>str'. scanstring (drop 10 s1) = Some (str', rest))
            \<or> (\<exists>str'. scanstring (drop 4 s1) = Some (str', rest))"
        by (simp split: option.splits if_splits prod.splits)
      then show ?thesis by blast
    qed
    then obtain k str' where "scanstring (drop k s1) = Some (str', rest)" by blast
    moreover have "length (drop k s1) \<le> length t" using t by simp
    ultimately show ?thesis by blast
  qed
qed

lemma scanstring_shorter: "scanstring s = Some (str, rest) \<Longrightarrow> length rest < length s"
proof (induction "length s" arbitrary: s str rest rule: less_induct)
  case less
  from less.prems obtain c t where s: "s = c # t"
    by (cases s) auto
  with less.prems scanstring_step [of c t str rest]
  consider "rest = t" | x str' where "scanstring x = Some (str', rest)" "length x \<le> length t"
    by blast
  then show ?case
  proof cases
    case 1
    with s show ?thesis by simp
  next
    case 2
    with s have "length x < length s" by simp
    from less.hyps [OF this 2(1)] 2(2) s show ?thesis by simp
  qed
qed


lemma unsigned_number_shorter:
  "unsigned_number negative s = IntLiteral i rest \<Longrightarrow> length rest \<le> length s - 1 \<and> s \<noteq> []"
proof (cases s)
  case Nil
  assume "unsigned_number negative s = IntLiteral i rest"
  with Nil show ?thesis by (simp add: unsigned_number_def)
next
  case (Cons d t)
  assume "unsigned_number negative s = IntLiteral i rest"
  with Cons have "rest = t \<or> rest = dropWhile is_digit t"
    by (auto simp: unsigned_number_def Let_def split: if_splits)
  with Cons show ?thesis
    using length_dropWhile_le [of is_digit t] by auto
qed

lemma match_number_shorter:
  "match_number s = IntLiteral i rest \<Longrightarrow> length rest < length s"
proof (cases s)
  case Nil
  assume "match_number s = IntLiteral i rest"
  with Nil show ?thesis by (simp add: match_number_def)
next
  case (Cons c t)
  assume "match_number s = IntLiteral i rest"
  with Cons have "unsigned_number True t = IntLiteral i rest
                  \<or> unsigned_number False s = IntLiteral i rest"
    by (auto simp: match_number_def split: if_splits)
  with Cons show ?thesis
    using unsigned_number_shorter [of True t i rest] unsigned_number_shorter [of False s i rest]
    by auto
qed

lemma scan_once_shorter_step:
  assumes arr: "\<And>s acc v rest. parse_array n s acc = Parsed v rest \<Longrightarrow> length rest < length s"
    and obj: "\<And>s pairs v rest. parse_object n s pairs = Parsed v rest \<Longrightarrow> length rest < length s"
    and parsed: "scan_once (Suc n) s = Parsed v rest"
  shows "length rest < length s"
proof (cases s)
  case Nil
  with parsed show ?thesis by simp
next
  case (Cons c t)
  consider (str) "c = 0x22" | (obj) "c = 0x7B" | (arr) "c = 0x5B"
    | (other) "c \<noteq> 0x22" "c \<noteq> 0x7B" "c \<noteq> 0x5B"
    by blast
  then show ?thesis
  proof cases
    case str
    with parsed Cons obtain str' where "scanstring t = Some (str', rest)"
      by (auto split: option.splits)
    then show ?thesis
      using scanstring_shorter Cons by fastforce
  next
    case obj
    with parsed Cons obtain d t1 where skip: "skip_ws t = d # t1"
      and "rest = t1 \<or> parse_object n t1 [] = Parsed v rest"
      by (auto split: list.splits if_splits)
    then have "length rest \<le> length t1"
      using assms(2) [of t1 "[]" v rest] by auto
    with skip_ws_Cons_shorter [OF skip] Cons show ?thesis by simp
  next
    case arr
    with parsed Cons obtain d t1 where skip: "skip_ws t = d # t1"
      and "rest = t1 \<or> parse_array n (d # t1) [] = Parsed v rest"
      by (auto split: list.splits if_splits)
    then have "length rest \<le> length (d # t1)"
      using assms(1) [of "d # t1" "[]" v rest] by auto
    with length_skip_ws [of t] skip Cons show ?thesis by simp
  next
    case other
    with parsed Cons
    have "rest = drop 3 t \<or> rest = drop 4 t \<or> (\<exists>i. match_number (c # t) = IntLiteral i rest)"
      by (auto split: if_splits number.splits)
    then show ?thesis
      using match_number_shorter [of "c # t" _ rest] Cons by auto
  qed
qed

lemma parse_array_shorter_step:
  assumes scan: "\<And>s v rest. scan_once n s = Parsed v rest \<Longrightarrow> length rest < length s"
    and arr: "\<And>s acc v rest. parse_array n s acc = Parsed v rest \<Longrightarrow> length rest < length s"
    and parsed: "parse_array (Suc n) s acc = Parsed v rest"
  shows "length rest < length s"
proof -
  from parsed obtain x r1 d t1 where first: "scan_once n s = Parsed x r1"
    and skip: "skip_ws r1 = d # t1"
    and "rest = t1 \<or> parse_array n (skip_ws t1) (acc @ [x]) = Parsed v rest"
    by (auto split: parsed.splits list.splits if_splits)
  then have "length rest \<le> length t1"
    using arr [of "skip_ws t1" "acc @ [x]" v rest] length_skip_ws [of t1] by auto
  with scan [OF first] skip_ws_Cons_shorter [OF skip] show ?thesis by simp
qed

lemma parse_object_shorter_step:
  assumes scan: "\<And>s v rest. scan_once n s = Parsed v rest \<Longrightarrow> length rest < length s"
    and obj: "\<And>s pairs v rest. parse_object n s pairs = Parsed v rest \<Longrightarrow> length rest < length s"
    and parsed: "parse_object (Suc n) s pairs = Parsed v rest"
  shows "length rest < length s"
proof -
  from parsed obtain key r0 t1 x r2 d t3 where key: "scanstring s = Some (key, r0)"
    and colon: "skip_ws r0 = 0x3A # t1"
    and val: "scan_once n (skip_ws t1) = Parsed x r2"
    and skip: "skip_ws r2 = d # t3"
    and "rest = t3 \<or> (\<exists>q t4. skip_ws t3 = q # t4
                         \<and> parse_object n t4 (pairs @ [(key, x)]) = Parsed v rest)"
    by (auto split: option.splits parsed.splits list.splits if_splits)
  then have "length rest \<le> length t3"
    using obj skip_ws_Cons_shorter by fastforce
  with scanstring_shorter [OF key] skip_ws_Cons_shorter [OF colon] scan [OF val]
    skip_ws_Cons_shorter [OF skip] length_skip_ws [of t1]
  show ?thesis by simp
qed

lemma parsed_shorter:
  "(scan_once n s = Parsed v rest \<longrightarrow> length rest < length s)
   \<and> (parse_array n s acc = Parsed v rest \<longrightarrow> length rest < length s)
   \<and> (parse_object n s pairs = Parsed v rest \<longrightarrow> length rest < length s)"
proof (induction n arbitrary: s v rest acc pairs)
  case 0
  show ?case by simp
next
  case (Suc n)
  have scan: "scan_once n s = Parsed v rest \<Longrightarrow> length rest < length s" for s v rest
    using Suc by blast
  have arr: "parse_array n s acc = Parsed v rest \<Longrightarrow> length rest < length s" for s acc v rest
    using Suc by blast
  have obj: "parse_object n s pairs = Parsed v rest \<Longrightarrow> length rest < length s"
    for s pairs v rest
    using Suc by blast
  show ?case
  proof (intro conjI impI)
    assume parsed: "scan_once (Suc n) s = Parsed v rest"
    show "length rest < length s"
    proof (rule scan_once_shorter_step [where n = n and s = s and v = v and rest = rest])
      show "\<And>s acc v rest. parse_array n s acc = Parsed v rest \<Longrightarrow> length rest < length s"
        by (rule arr)
      show "\<And>s pairs v rest. parse_object n s pairs = Parsed v rest \<Longrightarrow> length rest < length s"
        by (rule obj)
      show "scan_once (Suc n) s = Parsed v rest"
        by (rule parsed)
    qed
  next
    assume parsed: "parse_array (Suc n) s acc = Parsed v rest"
    show "length rest < length s"
    proof (rule parse_array_shorter_step
        [where n = n and s = s and v = v and rest = rest and acc = acc])
      show "\<And>s v rest. scan_once n s = Parsed v rest \<Longrightarrow> length rest < length s"
        by (rule scan)
      show "\<And>s acc v rest. parse_array n s acc = Parsed v rest \<Longrightarrow> length rest < length s"
        by (rule arr)
      show "parse_array (Suc n) s acc = Parsed v rest"
        by (rule parsed)
    qed
  next
    assume parsed: "parse_object (Suc n) s pairs = Parsed v rest"
    show "length rest < length s"
    proof (rule parse_object_shorter_step
        [where n = n and s = s and v = v and rest = rest and pairs = pairs])
      show "\<And>s v rest. scan_once n s = Parsed v rest \<Longrightarrow> length rest < length s"
        by (rule scan)
      show "\<And>s pairs v rest. parse_object n s pairs = Parsed v rest \<Longrightarrow> length rest < length s"
        by (rule obj)
      show "parse_object (Suc n) s pairs = Parsed v rest"
        by (rule parsed)
    qed
  qed
qed


lemma shorter:
  "scan_once n s = Parsed v rest \<Longrightarrow> length rest < length s"
  using parsed_shorter by blast

lemma scan_once_fuel_step:
  assumes arr: "\<And>s acc. parse_array n s acc = OutOfFuel \<Longrightarrow> n \<le> 2 * length s + 1"
    and obj: "\<And>s pairs. parse_object n s pairs = OutOfFuel \<Longrightarrow> n \<le> 2 * length s + 1"
    and out: "scan_once (Suc n) s = OutOfFuel"
  shows "Suc n \<le> 2 * length s"
proof (cases s)
  case Nil
  with out show ?thesis by simp
next
  case (Cons c t)
  consider (str) "c = 0x22" | (obj) "c = 0x7B" | (arr) "c = 0x5B"
    | (other) "c \<noteq> 0x22" "c \<noteq> 0x7B" "c \<noteq> 0x5B"
    by blast
  then show ?thesis
  proof cases
    case str
    with out Cons show ?thesis
      by (auto split: option.splits)
  next
    case obj
    with out Cons obtain d t1 where skip: "skip_ws t = d # t1"
      and "parse_object n t1 [] = OutOfFuel"
      by (auto split: list.splits if_splits)
    then have "n \<le> 2 * length t1 + 1"
      using assms(2) by blast
    with skip_ws_Cons_shorter [OF skip] Cons show ?thesis by simp
  next
    case arr
    with out Cons obtain d t1 where skip: "skip_ws t = d # t1"
      and "parse_array n (d # t1) [] = OutOfFuel"
      by (auto split: list.splits if_splits)
    then have "n \<le> 2 * length (d # t1) + 1"
      using assms(1) by blast
    with length_skip_ws [of t] skip Cons show ?thesis by simp
  next
    case other
    with out Cons show ?thesis
      by (auto split: if_splits number.splits)
  qed
qed

lemma parse_array_fuel_step:
  assumes scan: "\<And>s. scan_once n s = OutOfFuel \<Longrightarrow> n \<le> 2 * length s"
    and arr: "\<And>s acc. parse_array n s acc = OutOfFuel \<Longrightarrow> n \<le> 2 * length s + 1"
    and out: "parse_array (Suc n) s acc = OutOfFuel"
  shows "Suc n \<le> 2 * length s + 1"
proof (cases "scan_once n s = OutOfFuel")
  case True
  then show ?thesis using scan [of s] by simp
next
  case False
  with out obtain x r1 d t1 where first: "scan_once n s = Parsed x r1"
    and skip: "skip_ws r1 = d # t1"
    and "parse_array n (skip_ws t1) (acc @ [x]) = OutOfFuel"
    by (auto split: parsed.splits list.splits if_splits)
  then have "n \<le> 2 * length (skip_ws t1) + 1"
    using arr by blast
  with shorter [OF first] skip_ws_Cons_shorter [OF skip] length_skip_ws [of t1]
  show ?thesis by simp
qed

lemma parse_object_fuel_step:
  assumes scan: "\<And>s. scan_once n s = OutOfFuel \<Longrightarrow> n \<le> 2 * length s"
    and obj: "\<And>s pairs. parse_object n s pairs = OutOfFuel \<Longrightarrow> n \<le> 2 * length s + 1"
    and out: "parse_object (Suc n) s pairs = OutOfFuel"
  shows "Suc n \<le> 2 * length s + 1"
proof -
  from out obtain key r0 t1 where key: "scanstring s = Some (key, r0)"
    and colon: "skip_ws r0 = 0x3A # t1"
    by (auto split: option.splits list.splits if_splits)
  have t1: "length t1 + 2 \<le> length s"
    using scanstring_shorter [OF key] skip_ws_Cons_shorter [OF colon] by simp
  show ?thesis
  proof (cases "scan_once n (skip_ws t1) = OutOfFuel")
    case True
    then have "n \<le> 2 * length (skip_ws t1)" by (rule scan)
    with length_skip_ws [of t1] t1 show ?thesis by simp
  next
    case False
    with out key colon obtain x r2 d t3 q t4 where val: "scan_once n (skip_ws t1) = Parsed x r2"
      and skip: "skip_ws r2 = d # t3" and next_key: "skip_ws t3 = q # t4"
      and "parse_object n t4 (pairs @ [(key, x)]) = OutOfFuel"
      by (auto split: parsed.splits list.splits if_splits)
    then have "n \<le> 2 * length t4 + 1"
      using obj by blast
    with shorter [OF val] skip_ws_Cons_shorter [OF skip] skip_ws_Cons_shorter [OF next_key]
      length_skip_ws [of t1] t1
    show ?thesis by simp
  qed
qed

lemma fuel_bound:
  "(scan_once n s = OutOfFuel \<longrightarrow> n \<le> 2 * length s)
   \<and> (parse_array n s acc = OutOfFuel \<longrightarrow> n \<le> 2 * length s + 1)
   \<and> (parse_object n s pairs = OutOfFuel \<longrightarrow> n \<le> 2 * length s + 1)"
proof (induction n arbitrary: s acc pairs)
  case 0
  show ?case by simp
next
  case (Suc n)
  have scan: "scan_once n s = OutOfFuel \<Longrightarrow> n \<le> 2 * length s" for s
    using Suc by blast
  have arr: "parse_array n s acc = OutOfFuel \<Longrightarrow> n \<le> 2 * length s + 1" for s acc
    using Suc by blast
  have obj: "parse_object n s pairs = OutOfFuel \<Longrightarrow> n \<le> 2 * length s + 1" for s pairs
    using Suc by blast
  show ?case
  proof (intro conjI impI)
    assume out: "scan_once (Suc n) s = OutOfFuel"
    show "Suc n \<le> 2 * length s"
    proof (rule scan_once_fuel_step [where n = n and s = s])
      show "\<And>s acc. parse_array n s acc = OutOfFuel \<Longrightarrow> n \<le> 2 * length s + 1"
        by (rule arr)
      show "\<And>s pairs. parse_object n s pairs = OutOfFuel \<Longrightarrow> n \<le> 2 * length s + 1"
        by (rule obj)
      show "scan_once (Suc n) s = OutOfFuel"
        by (rule out)
    qed
  next
    assume out: "parse_array (Suc n) s acc = OutOfFuel"
    show "Suc n \<le> 2 * length s + 1"
    proof (rule parse_array_fuel_step [where n = n and s = s and acc = acc])
      show "\<And>s. scan_once n s = OutOfFuel \<Longrightarrow> n \<le> 2 * length s"
        by (rule scan)
      show "\<And>s acc. parse_array n s acc = OutOfFuel \<Longrightarrow> n \<le> 2 * length s + 1"
        by (rule arr)
      show "parse_array (Suc n) s acc = OutOfFuel"
        by (rule out)
    qed
  next
    assume out: "parse_object (Suc n) s pairs = OutOfFuel"
    show "Suc n \<le> 2 * length s + 1"
    proof (rule parse_object_fuel_step [where n = n and s = s and pairs = pairs])
      show "\<And>s. scan_once n s = OutOfFuel \<Longrightarrow> n \<le> 2 * length s"
        by (rule scan)
      show "\<And>s pairs. parse_object n s pairs = OutOfFuel \<Longrightarrow> n \<le> 2 * length s + 1"
        by (rule obj)
      show "parse_object (Suc n) s pairs = OutOfFuel"
        by (rule out)
    qed
  qed
qed

lemma json_loads_fuel: "scan_once (Suc (2 * length s)) (skip_ws s) \<noteq> OutOfFuel"
proof
  assume "scan_once (Suc (2 * length s)) (skip_ws s) = OutOfFuel"
  then have "Suc (2 * length s) \<le> 2 * length (skip_ws s)"
    using fuel_bound by blast
  with length_skip_ws [of s] show False by simp
qed

section \<open>The payload of a metadata upload\<close>









end
